theory Spec2Isabelle
  imports Complex_Main
begin

section \<open>Scalars: exact reals with the IEEE special values\<close>

text \<open>
  The geometry of \<^verbatim>\<open>Inversions.py\<close> is computed on \<^verbatim>\<open>numpy.float64\<close> scalars. Rounding
  is left out: a finite scalar is an exact real. What is kept is that these scalars never
  raise on a division by zero: numpy returns \<^verbatim>\<open>inf\<close>, \<^verbatim>\<open>-inf\<close> or \<^verbatim>\<open>nan\<close> (with a
  warning), and the program goes on computing with them. Zeros are unsigned here (a zero
  divisor is taken as \<^verbatim>\<open>+0.0\<close>, which is what \<^verbatim>\<open>norm\<close> and a difference of equal numbers
  produce).
\<close>

datatype fval = Fin real | PInf | NInf | NaN

fun fneg :: "fval \<Rightarrow> fval" where
  "fneg (Fin a) = Fin (- a)"
| "fneg PInf = NInf"
| "fneg NInf = PInf"
| "fneg NaN = NaN"

fun fadd :: "fval \<Rightarrow> fval \<Rightarrow> fval" where
  "fadd (Fin a) (Fin b) = Fin (a + b)"
| "fadd NaN _ = NaN"
| "fadd _ NaN = NaN"
| "fadd PInf NInf = NaN"
| "fadd NInf PInf = NaN"
| "fadd PInf _ = PInf"
| "fadd _ PInf = PInf"
| "fadd NInf _ = NInf"
| "fadd _ NInf = NInf"

definition fsub :: "fval \<Rightarrow> fval \<Rightarrow> fval" where
  "fsub a b = fadd a (fneg b)"

text \<open>The sign of an infinity times, or divided by, a finite number.\<close>

definition inf_signed :: "bool \<Rightarrow> fval" where
  "inf_signed positive = (if positive then PInf else NInf)"

fun fmul :: "fval \<Rightarrow> fval \<Rightarrow> fval" where
  "fmul (Fin a) (Fin b) = Fin (a * b)"
| "fmul NaN _ = NaN"
| "fmul _ NaN = NaN"
| "fmul PInf (Fin b) = (if b = 0 then NaN else inf_signed (0 < b))"
| "fmul NInf (Fin b) = (if b = 0 then NaN else inf_signed (b < 0))"
| "fmul (Fin a) PInf = (if a = 0 then NaN else inf_signed (0 < a))"
| "fmul (Fin a) NInf = (if a = 0 then NaN else inf_signed (a < 0))"
| "fmul PInf PInf = PInf"
| "fmul NInf NInf = PInf"
| "fmul PInf NInf = NInf"
| "fmul NInf PInf = NInf"

fun fdiv :: "fval \<Rightarrow> fval \<Rightarrow> fval" where
  "fdiv (Fin a) (Fin b) =
     (if b \<noteq> 0 then Fin (a / b)
      else if 0 < a then PInf else if a < 0 then NInf else NaN)"
| "fdiv NaN _ = NaN"
| "fdiv _ NaN = NaN"
| "fdiv (Fin a) PInf = Fin 0"
| "fdiv (Fin a) NInf = Fin 0"
| "fdiv PInf (Fin b) = inf_signed (0 \<le> b)"
| "fdiv NInf (Fin b) = inf_signed (b < 0)"
| "fdiv PInf PInf = NaN"
| "fdiv PInf NInf = NaN"
| "fdiv NInf PInf = NaN"
| "fdiv NInf NInf = NaN"

text \<open>\<^verbatim>\<open>numpy.sqrt\<close>, as \<^verbatim>\<open>linalg.norm\<close> applies it to a sum of squares.\<close>

fun fsqrt :: "fval \<Rightarrow> fval" where
  "fsqrt (Fin a) = (if a < 0 then NaN else Fin (sqrt a))"
| "fsqrt PInf = PInf"
| "fsqrt NInf = NaN"
| "fsqrt NaN = NaN"

text \<open>\<^verbatim>\<open>x ** 0.5\<close>: the C \<^verbatim>\<open>pow\<close>, which differs from the square root at \<^verbatim>\<open>-inf\<close>.\<close>

fun pow_half :: "fval \<Rightarrow> fval" where
  "pow_half (Fin a) = (if a < 0 then NaN else Fin (sqrt a))"
| "pow_half PInf = PInf"
| "pow_half NInf = PInf"
| "pow_half NaN = NaN"

text \<open>\<^verbatim>\<open>x ** 2\<close>.\<close>

definition sq :: "fval \<Rightarrow> fval" where
  "sq x = fmul x x"

text \<open>The comparison \<^verbatim>\<open><\<close>; every comparison with \<^verbatim>\<open>nan\<close> is false.\<close>

fun flt :: "fval \<Rightarrow> fval \<Rightarrow> bool" where
  "flt (Fin a) (Fin b) = (a < b)"
| "flt NaN _ = False"
| "flt _ NaN = False"
| "flt NInf NInf = False"
| "flt NInf _ = True"
| "flt PInf _ = False"
| "flt (Fin a) PInf = True"
| "flt (Fin a) NInf = False"

text \<open>
  Python's built-in \<^verbatim>\<open>min(a, b)\<close> keeps its first argument unless the second is
  strictly smaller; \<^verbatim>\<open>max(a, b, key=k)\<close> keeps its first argument unless the key of
  the second is strictly greater.
\<close>

definition py_min :: "fval \<Rightarrow> fval \<Rightarrow> fval" where
  "py_min a b = (if flt b a then b else a)"

definition py_max_key :: "('a \<Rightarrow> fval) \<Rightarrow> 'a \<Rightarrow> 'a \<Rightarrow> 'a" where
  "py_max_key k a b = (if flt (k a) (k b) then b else a)"

section \<open>Points: arrays of three scalars\<close>

type_synonym point = "fval \<times> fval \<times> fval"

abbreviation P :: "real \<Rightarrow> real \<Rightarrow> real \<Rightarrow> point" where
  "P x y z \<equiv> (Fin x, Fin y, Fin z)"

fun vadd :: "point \<Rightarrow> point \<Rightarrow> point" where
  "vadd (a0, a1, a2) (b0, b1, b2) = (fadd a0 b0, fadd a1 b1, fadd a2 b2)"

fun vsub :: "point \<Rightarrow> point \<Rightarrow> point" where
  "vsub (a0, a1, a2) (b0, b1, b2) = (fsub a0 b0, fsub a1 b1, fsub a2 b2)"

fun smul :: "fval \<Rightarrow> point \<Rightarrow> point" where
  "smul k (a0, a1, a2) = (fmul k a0, fmul k a1, fmul k a2)"

text \<open>\<^verbatim>\<open>numpy.linalg.norm\<close> of a one-dimensional array: the root of the sum of squares.\<close>

fun norm3 :: "point \<Rightarrow> fval" where
  "norm3 (a0, a1, a2) = fsqrt (fadd (fadd (sq a0) (sq a1)) (sq a2))"

section \<open>MathUtils\<close>

definition distance :: "point \<Rightarrow> point \<Rightarrow> fval" where
  "distance a b = norm3 (vsub a b)"

definition scale_cap :: real where
  "scale_cap = 9223372036854775807"

definition circ_inverse_of :: "point \<Rightarrow> point \<Rightarrow> fval \<Rightarrow> point" where
  "circ_inverse_of p c r =
     (let adj_direction = vsub p c;
          p_norm = norm3 adj_direction;
          prim_norm = fdiv (sq r) p_norm;
          scale = fdiv prim_norm p_norm;
          scale = py_min scale (Fin scale_cap)
      in vadd c (smul scale adj_direction))"


text \<open>
  \<^verbatim>\<open>define_circle\<close> reads the first two coordinates of each point, and builds the centre
  with \<^verbatim>\<open>np.array((px, py, 0))\<close>. Python's \<^verbatim>\<open>*\<close> and \<^verbatim>\<open>/\<close> associate to the left and
  \<^verbatim>\<open>**\<close> binds tighter than both. Nothing in the function compares \<^verbatim>\<open>s\<close> with zero.
\<close>

definition define_circle :: "point \<Rightarrow> point \<Rightarrow> point \<Rightarrow> point \<times> fval" where
  "define_circle p1 p2 p3 =
     (let x1 = fst p1; y1 = fst (snd p1);
          x2 = fst p2; y2 = fst (snd p2);
          x3 = fst p3; y3 = fst (snd p3);
          c = fadd (sq (fsub x1 x2)) (sq (fsub y1 y2));
          a = fadd (sq (fsub x2 x3)) (sq (fsub y2 y3));
          b = fadd (sq (fsub x3 x1)) (sq (fsub y3 y1));
          s = fsub (fmul (Fin 2) (fadd (fadd (fmul a b) (fmul b c)) (fmul c a)))
                   (fadd (fadd (fmul a a) (fmul b b)) (fmul c c));
          px = fdiv (fadd (fadd (fmul (fmul a (fsub (fadd b c) a)) x1)
                                (fmul (fmul b (fsub (fadd c a) b)) x2))
                          (fmul (fmul c (fsub (fadd a b) c)) x3)) s;
          py = fdiv (fadd (fadd (fmul (fmul a (fsub (fadd b c) a)) y1)
                                (fmul (fmul b (fsub (fadd c a) b)) y2))
                          (fmul (fmul c (fsub (fadd a b) c)) y3)) s;
          ar = pow_half a;
          br = pow_half b;
          cr = pow_half c;
          r = fdiv (fmul (fmul ar br) cr)
                (pow_half (fmul (fmul (fmul (fadd (fadd ar br) cr)
                                            (fadd (fadd (fneg ar) br) cr))
                                      (fadd (fsub ar br) cr))
                                (fsub (fadd ar br) cr)))
      in ((px, py, Fin 0), r))"

text \<open>
  \<^verbatim>\<open>math.atan2\<close> is the C library's two-argument arctangent. On finite arguments it is
  the angle of the point \<open>(x, y)\<close> in \<open>(-\<pi>, \<pi>]\<close>, and \<open>0\<close> at the origin; the values at
  the infinities are those of the C standard.
\<close>

definition atan2 :: "real \<Rightarrow> real \<Rightarrow> real" where
  "atan2 y x =
     (if 0 < x then arctan (y / x)
      else if x < 0 then (if 0 \<le> y then arctan (y / x) + pi else arctan (y / x) - pi)
      else if 0 < y then pi / 2
      else if y < 0 then - (pi / 2)
      else 0)"

fun fatan2 :: "fval \<Rightarrow> fval \<Rightarrow> fval" where
  "fatan2 (Fin y) (Fin x) = Fin (atan2 y x)"
| "fatan2 NaN _ = NaN"
| "fatan2 _ NaN = NaN"
| "fatan2 (Fin y) PInf = Fin 0"
| "fatan2 (Fin y) NInf = Fin (if 0 \<le> y then pi else - pi)"
| "fatan2 PInf (Fin x) = Fin (pi / 2)"
| "fatan2 NInf (Fin x) = Fin (- (pi / 2))"
| "fatan2 PInf PInf = Fin (pi / 4)"
| "fatan2 PInf NInf = Fin (3 * pi / 4)"
| "fatan2 NInf PInf = Fin (- (pi / 4))"
| "fatan2 NInf NInf = Fin (- (3 * pi / 4))"

definition circle_angle :: "point \<Rightarrow> point \<Rightarrow> fval" where
  "circle_angle p center =
     fatan2 (fsub (fst (snd p)) (fst (snd center))) (fsub (fst p) (fst center))"

section \<open>CircularInversionIntro: the scene\<close>

text \<open>
  The drawables the scene hands to manim, reduced to their geometry. \<open>Arc\<close> carries the
  keyword arguments of \<^verbatim>\<open>ma.Arc\<close> (\<^verbatim>\<open>angle\<close> is the angular sweep from \<^verbatim>\<open>start_angle\<close>),
  \<open>Circle\<close> a radius and a centre.
\<close>

datatype mobject =
    Arc (arc_radius: fval) (arc_center: point) (start_angle: fval) (angle: fval)
  | Circle (circle_radius: fval) (get_center: point)

definition ORIGIN :: point where "ORIGIN = P 0 0 0"
definition RIGHT :: point where "RIGHT = P 1 0 0"
definition UP :: point where "UP = P 0 1 0"
definition DOWN :: point where "DOWN = P 0 (- 1) 0"

text \<open>\<^verbatim>\<open>ma.Circle(radius=r).shift(u, v)\<close>: a circle about the origin, moved by \<open>u + v\<close>.\<close>

definition shifted_circle :: "fval \<Rightarrow> point \<Rightarrow> point \<Rightarrow> mobject" where
  "shifted_circle r u v = Circle r (vadd ORIGIN (vadd u v))"

text \<open>
  The attributes of the scene that the updaters and the tracer read and write. A dot is
  its centre; the line is the pair of the point it starts from and the centre of the dot
  it is drawn to. \<open>arc_updater\<close> tells whether \<^verbatim>\<open>inverted_arc\<close> has its updater attached,
  and then holds the \<open>center\<close> and \<open>radius\<close> that the updater closes over. Labels, colours
  and the formulas on screen are left out.
\<close>

record scene =
  RADIUS :: fval
  origin :: point
  A :: point
  A_prime :: point
  line :: "point \<times> point"
  circle :: "mobject option"
  inverted_arc :: "mobject option"
  arc_updater :: "(point \<times> fval) option"

text \<open>The scene as \<^verbatim>\<open>CircularInversionIntro\<close> first builds it.\<close>

definition initial_scene :: scene where
  "initial_scene = \<lparr> RADIUS = Fin 2, origin = P 0 0 0, A = P 1 0 0,
                     A_prime = P 0 0 0,
                     line = (P 0 0 0, P 0 0 0), circle = None, inverted_arc = None,
                     arc_updater = None \<rparr>"

text \<open>The two updaters that \<^verbatim>\<open>add_updaters\<close> registers, on \<^verbatim>\<open>A_prime\<close> and on \<^verbatim>\<open>line\<close>.\<close>

definition A_prime_updater :: "scene \<Rightarrow> scene" where
  "A_prime_updater st = st\<lparr>A_prime := circ_inverse_of (A st) (origin st) (RADIUS st)\<rparr>"

definition line_updater :: "scene \<Rightarrow> scene" where
  "line_updater st =
     st\<lparr>line := (origin st,
                 py_max_key (\<lambda>x. distance x (origin st)) (A st) (A_prime st))\<rparr>"

text \<open>
  The updater \<^verbatim>\<open>trace_circle\<close> defines; \<open>center\<close> and \<open>radius\<close> are the variables of the
  enclosing call that it closes over.
\<close>

definition inverted_arc_updater :: "point \<Rightarrow> fval \<Rightarrow> scene \<Rightarrow> scene" where
  "inverted_arc_updater center radius st =
     st\<lparr>inverted_arc := Some (Arc radius center
          (circle_angle (A_prime st) center)
          (fsub (Fin pi) (circle_angle (A_prime st) center)))\<rparr>"

text \<open>
  One frame of the host: the animation puts \<^verbatim>\<open>A\<close> at its new place, then the updaters
  run in the order in which their drawables entered the scene: that of \<^verbatim>\<open>A_prime\<close>, that
  of \<^verbatim>\<open>line\<close>, and last that of the arc while it is attached. \<open>play\<close> runs the frames of
  an animation that takes \<^verbatim>\<open>A\<close> through the given places, and returns the scene as it is
  after each frame.
\<close>

definition frame :: "point \<Rightarrow> scene \<Rightarrow> scene" where
  "frame a st =
     (let st = line_updater (A_prime_updater (st\<lparr>A := a\<rparr>))
      in case arc_updater st of
           None \<Rightarrow> st
         | Some (center, radius) \<Rightarrow> inverted_arc_updater center radius st)"

fun play :: "point list \<Rightarrow> scene \<Rightarrow> scene list" where
  "play [] st = []"
| "play (a # path) st = frame a st # play path (frame a st)"

text \<open>The three boundary points of the source circle that \<^verbatim>\<open>trace_circle\<close> inverts.\<close>

definition inverted_circle_points :: "scene \<Rightarrow> mobject \<Rightarrow> point list" where
  "inverted_circle_points st circ =
     [circ_inverse_of (vadd (get_center circ) (smul (circle_radius circ) RIGHT))
        (origin st) (RADIUS st),
      circ_inverse_of (vadd (get_center circ) (smul (circle_radius circ) UP))
        (origin st) (RADIUS st),
      circ_inverse_of (vadd (get_center circ) (smul (circle_radius circ) DOWN))
        (origin st) (RADIUS st)]"

text \<open>
  \<^verbatim>\<open>trace_circle(r, c)\<close>, up to the point where the finished image has been added to the
  scene. \<open>path\<close> is the places of \<^verbatim>\<open>A\<close> in the frames played between \<^verbatim>\<open>add_updater\<close> and
  \<^verbatim>\<open>remove_updater\<close>. The result is the scene after each of these frames and the scene
  at the end.
\<close>

definition trace_circle :: "fval \<Rightarrow> fval \<times> fval \<Rightarrow> point list \<Rightarrow> scene \<Rightarrow> scene list \<times> scene" where
  "trace_circle r c path st =
     (let circ = shifted_circle r (smul (fst c) RIGHT) (smul (snd c) UP);
          st = st\<lparr>circle := Some circ\<rparr>;
          pts = inverted_circle_points st circ;
          fitted = define_circle (pts ! 0) (pts ! 1) (pts ! 2);
          center = fst fitted;
          radius = snd fitted;
          st = st\<lparr>inverted_arc := Some (Arc radius center (Fin pi) (Fin 0))\<rparr>;
          st = st\<lparr>arc_updater := Some (center, radius)\<rparr>;
          frames = play path st;
          st = last (st # frames);
          st = st\<lparr>arc_updater := None\<rparr>;
          st = st\<lparr>inverted_arc := Some (shifted_circle radius
                   (smul (fst center) RIGHT) (smul (fst (snd center)) UP))\<rparr>
      in (frames, st))"

section \<open>Real coordinates\<close>

text \<open>The squared length of the displacement from \<open>c\<close> to \<open>p\<close>.\<close>

definition sqdist :: "real \<times> real \<times> real \<Rightarrow> real \<times> real \<times> real \<Rightarrow> real" where
  "sqdist p c = (case p of (p0, p1, p2) \<Rightarrow> case c of (c0, c1, c2) \<Rightarrow>
     (p0 - c0)\<^sup>2 + (p1 - c1)\<^sup>2 + (p2 - c2)\<^sup>2)"


text \<open>
  The quantities of \<^verbatim>\<open>define_circle\<close> on real coordinates: a squared side length, the
  denominator \<open>s\<close>, a numerator of the centre, and twice the signed area of the triangle,
  which is zero exactly for collinear points.
\<close>

definition side2 :: "real \<Rightarrow> real \<Rightarrow> real \<Rightarrow> real \<Rightarrow> real" where
  "side2 xa ya xb yb = (xa - xb)\<^sup>2 + (ya - yb)\<^sup>2"

definition heron :: "real \<Rightarrow> real \<Rightarrow> real \<Rightarrow> real" where
  "heron a b c = 2 * (a * b + b * c + c * a) - (a * a + b * b + c * c)"

definition weighted :: "real \<Rightarrow> real \<Rightarrow> real \<Rightarrow> real \<Rightarrow> real \<Rightarrow> real \<Rightarrow> real" where
  "weighted a b c t1 t2 t3 = a * (b + c - a) * t1 + b * (c + a - b) * t2 + c * (a + b - c) * t3"


definition cross :: "real \<Rightarrow> real \<Rightarrow> real \<Rightarrow> real \<Rightarrow> real \<Rightarrow> real \<Rightarrow> real" where
  "cross x1 y1 x2 y2 x3 y3 = (x2 - x1) * (y3 - y1) - (x3 - x1) * (y2 - y1)"

section \<open>Inversion of a point away from the centre\<close>


lemma sqdist_nonneg: "0 \<le> sqdist p c"
  by (simp add: sqdist_def split: prod.splits)

lemma sqdist_pos_iff: "0 < sqdist (p0, p1, p2) (c0, c1, c2) \<longleftrightarrow> (p0, p1, p2) \<noteq> (c0, c1, c2)"
proof -
  have "sqdist (p0, p1, p2) (c0, c1, c2) = 0 \<longleftrightarrow> (p0, p1, p2) = (c0, c1, c2)"
    by (simp add: sqdist_def sum_power2_eq_zero_iff add_nonneg_eq_0_iff)
  with sqdist_nonneg [of "(p0, p1, p2)" "(c0, c1, c2)"] show ?thesis
    by linarith
qed

lemma norm3_P: "norm3 (vsub (P p0 p1 p2) (P c0 c1 c2)) = Fin (sqrt (sqdist (p0, p1, p2) (c0, c1, c2)))"
proof -
  have "\<not> (p0 - c0) * (p0 - c0) + (p1 - c1) * (p1 - c1) + (p2 - c2) * (p2 - c2) < 0"
    by (simp add: not_less add_nonneg_nonneg)
  then show ?thesis
    by (simp add: fsub_def sq_def sqdist_def power2_eq_square)
qed

text \<open>
  Away from the centre every intermediate value is finite, and the function returns
  \<open>c + min (r\<^sup>2 / n\<^sup>2) cap * (p - c)\<close>.
\<close>

lemma circ_inverse_of_finite:
  assumes "(p0, p1, p2) \<noteq> (c0, c1, c2)"
  shows "circ_inverse_of (P p0 p1 p2) (P c0 c1 c2) (Fin r) =
    (let k = min (r\<^sup>2 / sqdist (p0, p1, p2) (c0, c1, c2)) scale_cap
     in P (c0 + k * (p0 - c0)) (c1 + k * (p1 - c1)) (c2 + k * (p2 - c2)))"
proof -
  define n2 where "n2 = sqdist (p0, p1, p2) (c0, c1, c2)"
  have pos: "0 < n2"
    using assms sqdist_pos_iff [of p0 p1 p2 c0 c1 c2] by (simp add: n2_def)
  then have root: "sqrt n2 \<noteq> 0" "sqrt n2 * sqrt n2 = n2"
    by simp_all
  have scale: "fdiv (fdiv (sq (Fin r)) (Fin (sqrt n2))) (Fin (sqrt n2)) = Fin (r\<^sup>2 / n2)"
    using root by (simp add: sq_def power2_eq_square)
  have capped: "py_min (Fin (r\<^sup>2 / n2)) (Fin scale_cap) = Fin (min (r\<^sup>2 / n2) scale_cap)"
    by (simp add: py_min_def min_def)
  have "circ_inverse_of (P p0 p1 p2) (P c0 c1 c2) (Fin r) =
      vadd (P c0 c1 c2) (smul (Fin (min (r\<^sup>2 / n2) scale_cap)) (vsub (P p0 p1 p2) (P c0 c1 c2)))"
    unfolding circ_inverse_of_def Let_def norm3_P n2_def [symmetric] scale capped ..
  then show ?thesis
    by (simp add: Let_def fsub_def n2_def)
qed

lemma scale_cap_pos: "0 < scale_cap"
  by (simp add: scale_cap_def)

lemma sqdist_pos: "(p0, p1, p2) \<noteq> (c0, c1, c2) \<Longrightarrow> 0 < sqdist (p0, p1, p2) (c0, c1, c2)"
  by (rule iffD2 [OF sqdist_pos_iff])

lemma sqdist_commute: "sqdist p c = sqdist c p"
  by (simp add: sqdist_def power2_commute split: prod.splits)

lemma sqdist_scaled:
  "sqdist (c0, c1, c2) (c0 + k * (p0 - c0), c1 + k * (p1 - c1), c2 + k * (p2 - c2)) =
   k\<^sup>2 * sqdist (p0, p1, p2) (c0, c1, c2)"
  by (simp add: sqdist_def power2_eq_square algebra_simps)

lemma distance_P:
  "distance (P c0 c1 c2) (P p0 p1 p2) = Fin (sqrt (sqdist (c0, c1, c2) (p0, p1, p2)))"
  unfolding distance_def by (rule norm3_P)

text \<open>
  C10. For a point \<open>p\<close> other than the centre \<open>c\<close> and a radius \<open>r > 0\<close>, the displacement
  of \<open>circ_inverse_of p c r\<close> from \<open>c\<close> is \<open>k\<close> times the displacement of \<open>p\<close> from \<open>c\<close>,
  where \<open>k\<close> is the capped scale factor and is not negative: the image lies on the ray
  from \<open>c\<close> through \<open>p\<close>.
\<close>

theorem ray_preservation:
  assumes "(p0, p1, p2) \<noteq> (c0, c1, c2)" and "0 < r"
  shows "\<exists>k. 0 \<le> k \<and> k = min (r\<^sup>2 / sqdist (p0, p1, p2) (c0, c1, c2)) scale_cap \<and>
    vsub (circ_inverse_of (P p0 p1 p2) (P c0 c1 c2) (Fin r)) (P c0 c1 c2) =
    smul (Fin k) (vsub (P p0 p1 p2) (P c0 c1 c2))"
proof -
  have "0 < sqdist (p0, p1, p2) (c0, c1, c2)"
    using assms(1) by (rule sqdist_pos)
  with assms(2) have "0 \<le> min (r\<^sup>2 / sqdist (p0, p1, p2) (c0, c1, c2)) scale_cap"
    using scale_cap_pos by simp
  then show ?thesis
    by (simp add: circ_inverse_of_finite [OF assms(1)] Let_def fsub_def)
qed

theorem ray_preservation_witness:
  "vsub (circ_inverse_of (P 1 0 0) (P 0 0 0) (Fin 2)) (P 0 0 0) =
   smul (Fin 4) (vsub (P 1 0 0) (P 0 0 0))"
  using ray_preservation [of 1 0 0 0 0 0 2]
  by (simp add: sqdist_def scale_cap_def)

text \<open>
  C1, as the code has it. The scale factor is \<open>min (r\<^sup>2 / n\<^sup>2) 9223372036854775807\<close>, so
  the product identity holds for the points at which the cap does not bite: for \<open>p\<close> other
  than \<open>c\<close>, \<open>r > 0\<close> and \<open>r\<^sup>2 / n\<^sup>2 \<le> 9223372036854775807\<close>, the result is
  \<open>c + (r\<^sup>2 / n\<^sup>2) * (p - c)\<close> and \<open>distance c p * distance c result = r\<^sup>2\<close>.
\<close>

theorem inversion_product:
  assumes "(p0, p1, p2) \<noteq> (c0, c1, c2)" and "0 < r"
    and "r\<^sup>2 / sqdist (p0, p1, p2) (c0, c1, c2) \<le> scale_cap"
  shows "circ_inverse_of (P p0 p1 p2) (P c0 c1 c2) (Fin r) =
      P (c0 + r\<^sup>2 / sqdist (p0, p1, p2) (c0, c1, c2) * (p0 - c0))
        (c1 + r\<^sup>2 / sqdist (p0, p1, p2) (c0, c1, c2) * (p1 - c1))
        (c2 + r\<^sup>2 / sqdist (p0, p1, p2) (c0, c1, c2) * (p2 - c2))
    \<and> fmul (distance (P c0 c1 c2) (P p0 p1 p2))
        (distance (P c0 c1 c2) (circ_inverse_of (P p0 p1 p2) (P c0 c1 c2) (Fin r))) = Fin (r\<^sup>2)"
proof -
  define n2 where "n2 = sqdist (p0, p1, p2) (c0, c1, c2)"
  define k where "k = r\<^sup>2 / n2"
  have pos: "0 < n2"
    unfolding n2_def using assms(1) by (rule sqdist_pos)
  have kpos: "0 < k"
    using pos assms(2) by (simp add: k_def)
  have res: "circ_inverse_of (P p0 p1 p2) (P c0 c1 c2) (Fin r) =
      P (c0 + k * (p0 - c0)) (c1 + k * (p1 - c1)) (c2 + k * (p2 - c2))"
    using assms(3) by (simp add: circ_inverse_of_finite [OF assms(1)] Let_def min_def k_def n2_def)
  have "sqrt n2 * sqrt (k\<^sup>2 * n2) = k * n2"
    using pos kpos by (simp add: real_sqrt_mult)
  also have "\<dots> = r\<^sup>2"
    using pos by (simp add: k_def)
  finally have "sqrt n2 * sqrt (k\<^sup>2 * n2) = r\<^sup>2" .
  then have "fmul (distance (P c0 c1 c2) (P p0 p1 p2))
        (distance (P c0 c1 c2) (circ_inverse_of (P p0 p1 p2) (P c0 c1 c2) (Fin r))) = Fin (r\<^sup>2)"
    unfolding res distance_P sqdist_scaled
    by (simp add: n2_def sqdist_commute [of "(c0, c1, c2)"])
  with res show ?thesis
    by (simp add: k_def n2_def)
qed

theorem inversion_product_witness:
  "circ_inverse_of (P 1 0 0) (P 0 0 0) (Fin 2) = P 4 0 0 \<and>
   fmul (distance (P 0 0 0) (P 1 0 0))
     (distance (P 0 0 0) (circ_inverse_of (P 1 0 0) (P 0 0 0) (Fin 2))) = Fin 4"
  using inversion_product [of 1 0 0 0 0 0 2]
  by (auto simp: sqdist_def scale_cap_def)

text \<open>
  C1 as stated fails where the cap bites: with centre \<open>(0, 0, 0)\<close>, radius \<open>2\<close> and
  \<open>p = (2\<^sup>-\<^sup>3\<^sup>2, 0, 0)\<close> the uncapped factor would be \<open>2\<^sup>6\<^sup>6\<close>, the result is
  \<open>(9223372036854775807 / 2\<^sup>3\<^sup>2, 0, 0)\<close> and the product of the distances is not \<open>4\<close>.
\<close>

theorem inversion_product_counterexample:
  "fmul (distance (P 0 0 0) (P (1 / 2 ^ 32) 0 0))
     (distance (P 0 0 0) (circ_inverse_of (P (1 / 2 ^ 32) 0 0) (P 0 0 0) (Fin 2))) \<noteq> Fin (2\<^sup>2)"
proof -
  have "circ_inverse_of (P (1 / 2 ^ 32) 0 0) (P 0 0 0) (Fin 2) = P (scale_cap / 2 ^ 32) 0 0"
    by (simp add: circ_inverse_of_finite Let_def sqdist_def scale_cap_def power2_eq_square)
  then show ?thesis
    by (simp add: distance_P sqdist_def scale_cap_def real_sqrt_divide power2_eq_square)
qed

lemma there_and_back:
  fixes c :: real
  assumes "m * k = 1"
  shows "c + m * (c + k * (p - c) - c) = p"
proof -
  have "c + m * (c + k * (p - c) - c) = c + (m * k) * (p - c)"
    by (simp add: algebra_simps)
  then show ?thesis
    by (simp add: assms)
qed

text \<open>
  C5, as the code has it. Inverting twice gives the point back when neither inversion is
  capped: for \<open>p\<close> other than \<open>c\<close> and \<open>r > 0\<close> with both \<open>r\<^sup>2 / n\<^sup>2\<close> and \<open>n\<^sup>2 / r\<^sup>2\<close> at
  most \<open>9223372036854775807\<close>, \<open>circ_inverse_of (circ_inverse_of p c r) c r = p\<close>.
\<close>

theorem inversion_involution:
  assumes "(p0, p1, p2) \<noteq> (c0, c1, c2)" and "0 < r"
    and "r\<^sup>2 / sqdist (p0, p1, p2) (c0, c1, c2) \<le> scale_cap"
    and "sqdist (p0, p1, p2) (c0, c1, c2) / r\<^sup>2 \<le> scale_cap"
  shows "circ_inverse_of (circ_inverse_of (P p0 p1 p2) (P c0 c1 c2) (Fin r)) (P c0 c1 c2) (Fin r) =
    P p0 p1 p2"
proof -
  define n2 where "n2 = sqdist (p0, p1, p2) (c0, c1, c2)"
  define k where "k = r\<^sup>2 / n2"
  define q0 where "q0 = c0 + k * (p0 - c0)"
  define q1 where "q1 = c1 + k * (p1 - c1)"
  define q2 where "q2 = c2 + k * (p2 - c2)"
  have pos: "0 < n2"
    unfolding n2_def using assms(1) by (rule sqdist_pos)
  have kpos: "0 < k"
    using pos assms(2) by (simp add: k_def)
  have once: "circ_inverse_of (P p0 p1 p2) (P c0 c1 c2) (Fin r) = P q0 q1 q2"
    using assms(3)
    by (simp add: circ_inverse_of_finite [OF assms(1)] Let_def min_def k_def n2_def q0_def q1_def q2_def)
  have m2: "sqdist (q0, q1, q2) (c0, c1, c2) = k\<^sup>2 * n2"
    unfolding q0_def q1_def q2_def n2_def
    by (simp only: sqdist_commute [of _ "(c0, c1, c2)"] sqdist_scaled)
  have "0 < k\<^sup>2 * n2"
    using pos kpos by simp
  then have "0 < sqdist (q0, q1, q2) (c0, c1, c2)"
    by (simp only: m2)
  then have away: "(q0, q1, q2) \<noteq> (c0, c1, c2)"
    by (rule iffD1 [OF sqdist_pos_iff])
  have again: "r\<^sup>2 / (k\<^sup>2 * n2) = n2 / r\<^sup>2"
    using pos assms(2) by (simp add: k_def power2_eq_square)
  have one: "n2 / r\<^sup>2 * k = 1"
    using pos assms(2) by (simp add: k_def)
  have "min (r\<^sup>2 / sqdist (q0, q1, q2) (c0, c1, c2)) scale_cap = n2 / r\<^sup>2"
    unfolding m2 again using assms(4) by (simp add: n2_def)
  then have "circ_inverse_of (P q0 q1 q2) (P c0 c1 c2) (Fin r) =
      P (c0 + n2 / r\<^sup>2 * (q0 - c0)) (c1 + n2 / r\<^sup>2 * (q1 - c1)) (c2 + n2 / r\<^sup>2 * (q2 - c2))"
    by (simp only: circ_inverse_of_finite [OF away] Let_def)
  also have "\<dots> = P p0 p1 p2"
    unfolding q0_def q1_def q2_def by (simp only: there_and_back [OF one])
  finally show ?thesis
    by (simp only: once)
qed

theorem inversion_involution_witness:
  "circ_inverse_of (circ_inverse_of (P 1 0 0) (P 0 0 0) (Fin 2)) (P 0 0 0) (Fin 2) = P 1 0 0"
  using inversion_involution [of 1 0 0 0 0 0 2]
  by (simp add: sqdist_def scale_cap_def)

text \<open>
  C5 as stated fails where the cap bites: the image of \<open>(2\<^sup>-\<^sup>3\<^sup>2, 0, 0)\<close> under the inversion
  of radius \<open>2\<close> about the origin is not taken back to it.
\<close>

theorem inversion_involution_counterexample:
  "circ_inverse_of (circ_inverse_of (P (1 / 2 ^ 32) 0 0) (P 0 0 0) (Fin 2)) (P 0 0 0) (Fin 2) \<noteq>
   P (1 / 2 ^ 32) 0 0"
proof -
  have "circ_inverse_of (P (1 / 2 ^ 32) 0 0) (P 0 0 0) (Fin 2) = P (scale_cap / 2 ^ 32) 0 0"
    by (simp add: circ_inverse_of_finite Let_def sqdist_def scale_cap_def power2_eq_square)
  then show ?thesis
    by (simp add: circ_inverse_of_finite Let_def sqdist_def scale_cap_def power2_eq_square)
qed

text \<open>
  C6, as the code has it. At \<open>p = c\<close> with a radius other than zero nothing fails: the
  norm is \<open>0\<close>, both quotients are \<open>inf\<close>, the scale factor is capped at
  \<open>9223372036854775807\<close>, and since the displacement it multiplies is the zero vector the
  function returns the centre \<open>c\<close> itself.
\<close>

theorem singular_input:
  assumes "r \<noteq> 0"
  shows "py_min (fdiv (fdiv (sq (Fin r)) (norm3 (vsub (P c0 c1 c2) (P c0 c1 c2))))
                  (norm3 (vsub (P c0 c1 c2) (P c0 c1 c2)))) (Fin scale_cap) = Fin scale_cap
    \<and> circ_inverse_of (P c0 c1 c2) (P c0 c1 c2) (Fin r) = P c0 c1 c2"
  using assms by (simp add: circ_inverse_of_def Let_def fsub_def sq_def py_min_def inf_signed_def)

theorem singular_input_witness:
  "circ_inverse_of (P (- 3) 0 0) (P (- 3) 0 0) (Fin 2) = P (- 3) 0 0"
  using singular_input [of 2 "- 3" 0 0] by simp

text \<open>
  C6 as stated fails: the result at the singular input is not a point far away. For the
  inversion circle of the scene (centre \<open>(0, 0, 0)\<close>, radius \<open>2\<close>) it is the centre, at
  distance \<open>0\<close>.
\<close>

theorem singular_input_counterexample:
  "circ_inverse_of (P 0 0 0) (P 0 0 0) (Fin 2) = P 0 0 0 \<and>
   distance (P 0 0 0) (circ_inverse_of (P 0 0 0) (P 0 0 0) (Fin 2)) = Fin 0"
  by (simp add: circ_inverse_of_def Let_def fsub_def sq_def py_min_def inf_signed_def distance_def)

section \<open>The circle through three points\<close>

lemma heron_cross:
  "heron (side2 x2 y2 x3 y3) (side2 x3 y3 x1 y1) (side2 x1 y1 x2 y2) = 4 * (cross x1 y1 x2 y2 x3 y3)\<^sup>2"
  unfolding heron_def side2_def cross_def by algebra










lemma side2_nonneg: "0 \<le> side2 xa ya xb yb"
  by (simp add: side2_def)

lemma side_P:
  "fadd (sq (fsub (Fin xa) (Fin xb))) (sq (fsub (Fin ya) (Fin yb))) = Fin (side2 xa ya xb yb)"
  by (simp add: sq_def fsub_def side2_def power2_eq_square)

lemma pow_half_Fin: "0 \<le> a \<Longrightarrow> pow_half (Fin a) = Fin (sqrt a)"
  by simp

lemma four_factors:
  fixes p q r :: real
  shows "(p + q + r) * (- p + q + r) * (p - q + r) * (p + q - r) = heron (p\<^sup>2) (q\<^sup>2) (r\<^sup>2)"
  unfolding heron_def by algebra

lemma four_factors_sqrt:
  assumes "0 \<le> a" "0 \<le> b" "0 \<le> c"
  shows "(sqrt a + sqrt b + sqrt c) * (- sqrt a + sqrt b + sqrt c) * (sqrt a - sqrt b + sqrt c)
     * (sqrt a + sqrt b - sqrt c) = heron a b c"
  using four_factors [of "sqrt a" "sqrt b" "sqrt c"] assms by (simp only: real_sqrt_pow2)

lemma define_circle_P:
  fixes x1 y1 x2 y2 x3 y3 :: real
  defines "a \<equiv> side2 x2 y2 x3 y3" and "b \<equiv> side2 x3 y3 x1 y1" and "c \<equiv> side2 x1 y1 x2 y2"
  shows "define_circle (P x1 y1 z1) (P x2 y2 z2) (P x3 y3 z3) =
    ((fdiv (Fin (weighted a b c x1 x2 x3)) (Fin (heron a b c)),
      fdiv (Fin (weighted a b c y1 y2 y3)) (Fin (heron a b c)),
      Fin 0),
     fdiv (Fin (sqrt a * sqrt b * sqrt c)) (pow_half (Fin (heron a b c))))"
proof -
  have nn: "0 \<le> a" "0 \<le> b" "0 \<le> c"
    by (simp_all add: a_def b_def c_def side2_nonneg)
  have s: "fsub (fmul (Fin 2) (fadd (fadd (fmul (Fin a) (Fin b)) (fmul (Fin b) (Fin c))) (fmul (Fin c) (Fin a))))
                   (fadd (fadd (fmul (Fin a) (Fin a)) (fmul (Fin b) (Fin b))) (fmul (Fin c) (Fin c)))
      = Fin (heron a b c)"
    by (simp add: fsub_def heron_def)
  have num: "\<And>t1 t2 t3. fadd (fadd (fmul (fmul (Fin a) (fsub (fadd (Fin b) (Fin c)) (Fin a))) (Fin t1))
                                (fmul (fmul (Fin b) (fsub (fadd (Fin c) (Fin a)) (Fin b))) (Fin t2)))
                          (fmul (fmul (Fin c) (fsub (fadd (Fin a) (Fin b)) (Fin c))) (Fin t3))
      = Fin (weighted a b c t1 t2 t3)"
    by (simp add: fsub_def weighted_def)
  have den: "fmul (fmul (fmul (fadd (fadd (Fin (sqrt a)) (Fin (sqrt b))) (Fin (sqrt c)))
                                            (fadd (fadd (fneg (Fin (sqrt a))) (Fin (sqrt b))) (Fin (sqrt c))))
                                      (fadd (fsub (Fin (sqrt a)) (Fin (sqrt b))) (Fin (sqrt c))))
                                (fsub (fadd (Fin (sqrt a)) (Fin (sqrt b))) (Fin (sqrt c)))
      = Fin (heron a b c)"
    using four_factors_sqrt [OF nn] by (simp add: fsub_def)
  have top: "fmul (fmul (Fin (sqrt a)) (Fin (sqrt b))) (Fin (sqrt c)) = Fin (sqrt a * sqrt b * sqrt c)"
    by simp
  show ?thesis
    unfolding define_circle_def Let_def fst_conv snd_conv side_P
    unfolding a_def [symmetric] b_def [symmetric] c_def [symmetric]
    unfolding pow_half_Fin [OF nn(1)] pow_half_Fin [OF nn(2)] pow_half_Fin [OF nn(3)]
    unfolding s num den top ..
qed


lemma heron_pos:
  assumes "cross x1 y1 x2 y2 x3 y3 \<noteq> 0"
  shows "0 < heron (side2 x2 y2 x3 y3) (side2 x3 y3 x1 y1) (side2 x1 y1 x2 y2)"
  using assms by (simp add: heron_cross)



lemma define_circle_finite:
  fixes x1 y1 x2 y2 x3 y3 :: real
  defines "a \<equiv> side2 x2 y2 x3 y3" and "b \<equiv> side2 x3 y3 x1 y1" and "c \<equiv> side2 x1 y1 x2 y2"
  assumes "cross x1 y1 x2 y2 x3 y3 \<noteq> 0"
  shows "define_circle (P x1 y1 z1) (P x2 y2 z2) (P x3 y3 z3) =
    (P (weighted a b c x1 x2 x3 / heron a b c) (weighted a b c y1 y2 y3 / heron a b c) 0,
     Fin (sqrt a * sqrt b * sqrt c / sqrt (heron a b c)))"
proof -
  have "0 < heron a b c"
    unfolding a_def b_def c_def using assms(4) by (rule heron_pos)
  then show ?thesis
    unfolding a_def b_def c_def define_circle_P by simp
qed



section \<open>Collinear points\<close>





section \<open>The polar angle\<close>

lemma hypot_factor:
  fixes x y :: real
  assumes "x \<noteq> 0"
  shows "sqrt (x\<^sup>2 + y\<^sup>2) = \<bar>x\<bar> * sqrt (1 + (y / x)\<^sup>2)"
proof -
  have "x\<^sup>2 + y\<^sup>2 = x\<^sup>2 * (1 + (y / x)\<^sup>2)"
    using assms by (simp add: power_divide distrib_left)
  then show ?thesis
    by (simp add: real_sqrt_mult)
qed

lemma sqrt_one_plus_pos: "0 < sqrt (1 + (t::real)\<^sup>2)"
  by (simp add: add_pos_nonneg)

lemma polar_arctan:
  fixes x y :: real
  assumes "x \<noteq> 0"
  shows "\<bar>x\<bar> * sqrt (1 + (y / x)\<^sup>2) * cos (arctan (y / x)) = \<bar>x\<bar>"
    and "\<bar>x\<bar> * sqrt (1 + (y / x)\<^sup>2) * sin (arctan (y / x)) = \<bar>x\<bar> * (y / x)"
  using sqrt_one_plus_pos [of "y / x"] by (simp_all add: cos_arctan sin_arctan)

lemma atan2_polar:
  fixes x y :: real
  assumes "(x, y) \<noteq> (0, 0)"
  shows "x = sqrt (x\<^sup>2 + y\<^sup>2) * cos (atan2 y x)" and "y = sqrt (x\<^sup>2 + y\<^sup>2) * sin (atan2 y x)"
proof -
  consider (right) "0 < x" | (left) "x < 0" | (up) "x = 0" "0 < y" | (down) "x = 0" "y < 0"
    using assms by (simp add: neq_iff) linarith
  then have "x = sqrt (x\<^sup>2 + y\<^sup>2) * cos (atan2 y x) \<and> y = sqrt (x\<^sup>2 + y\<^sup>2) * sin (atan2 y x)"
  proof cases
    case right
    then have "x \<noteq> 0" by simp
    from polar_arctan [OF this, of y] hypot_factor [OF this, of y] right show ?thesis
      by (simp add: atan2_def)
  next
    case left
    then have "x \<noteq> 0" by simp
    from polar_arctan [OF this, of y] hypot_factor [OF this, of y] left show ?thesis
      by (simp add: atan2_def)
  next
    case up
    then show ?thesis by (simp add: atan2_def)
  next
    case down
    then show ?thesis by (simp add: atan2_def)
  qed
  then show "x = sqrt (x\<^sup>2 + y\<^sup>2) * cos (atan2 y x)" and "y = sqrt (x\<^sup>2 + y\<^sup>2) * sin (atan2 y x)"
    by simp_all
qed

lemma atan2_range: "- pi < atan2 y x \<and> atan2 y x \<le> pi"
proof -
  have b: "- (pi / 2) < arctan (y / x)" "arctan (y / x) < pi / 2"
    by (rule arctan_lbound, rule arctan_ubound)
  have "arctan (y / x) \<le> 0" if "x < 0" "0 \<le> y"
    using that by (simp add: divide_nonneg_neg arctan_le_zero_iff)
  moreover have "0 < arctan (y / x)" if "x < 0" "y < 0"
    using that by (simp add: divide_neg_neg zero_less_arctan_iff)
  ultimately show ?thesis
    using b pi_gt_zero unfolding atan2_def by (auto simp: not_less)
qed

text \<open>
  C8. For two points of one plane \<open>z = const\<close>, \<open>p\<close> other than \<open>center\<close>, \<open>circle_angle\<close>
  returns a finite angle \<open>\<theta>\<close> of \<open>[-\<pi>, \<pi>]\<close>, given by the two-argument arctangent, with
  \<open>p - center = distance p center * (cos \<theta>, sin \<theta>)\<close>.
\<close>

theorem polar_angle:
  assumes "(p0, p1) \<noteq> (c0, c1)"
  shows "\<exists>\<theta> d. circle_angle (P p0 p1 z) (P c0 c1 z) = Fin \<theta> \<and> - pi \<le> \<theta> \<and> \<theta> \<le> pi
    \<and> distance (P p0 p1 z) (P c0 c1 z) = Fin d
    \<and> p0 - c0 = d * cos \<theta> \<and> p1 - c1 = d * sin \<theta>"
proof -
  define x y where "x = p0 - c0" and "y = p1 - c1"
  have "(x, y) \<noteq> (0, 0)"
    using assms by (auto simp: x_def y_def)
  note polar = atan2_polar [OF this]
  have ang: "circle_angle (P p0 p1 z) (P c0 c1 z) = Fin (atan2 y x)"
    by (simp add: circle_angle_def fsub_def x_def y_def)
  have dist: "distance (P p0 p1 z) (P c0 c1 z) = Fin (sqrt (x\<^sup>2 + y\<^sup>2))"
    by (simp add: distance_P sqdist_def x_def y_def)
  from ang dist polar atan2_range [of y x] show ?thesis
    unfolding x_def y_def by (intro exI [of _ "atan2 (p1 - c1) (p0 - c0)"] exI [of _ "sqrt ((p0 - c0)\<^sup>2 + (p1 - c1)\<^sup>2)"]) simp
qed

theorem polar_angle_witness:
  "\<exists>\<theta> d. circle_angle (P 0 1 0) (P 0 0 0) = Fin \<theta> \<and> - pi \<le> \<theta> \<and> \<theta> \<le> pi
    \<and> distance (P 0 1 0) (P 0 0 0) = Fin d
    \<and> (0::real) - 0 = d * cos \<theta> \<and> (1::real) - 0 = d * sin \<theta>"
  by (rule polar_angle) simp

section \<open>The updaters\<close>

lemma flt_irrefl: "\<not> flt a a"
  by (cases a) simp_all

lemma flt_asym: "flt a b \<Longrightarrow> \<not> flt b a"
  by (cases a; cases b) simp_all

text \<open>
  C9. Whenever its updater runs, the line starts at the centre of the origin dot and is
  drawn to \<^verbatim>\<open>A\<close> or to \<^verbatim>\<open>A_prime\<close>, and neither of the two is farther from that centre than
  the one chosen: when both distances are numbers, the chosen dot is at the greater of
  them.
\<close>

theorem connector_line:
  "fst (line (line_updater st)) = origin st
   \<and> (snd (line (line_updater st)) = A st \<or> snd (line (line_updater st)) = A_prime st)
   \<and> \<not> flt (distance (snd (line (line_updater st))) (origin st)) (distance (A st) (origin st))
   \<and> \<not> flt (distance (snd (line (line_updater st))) (origin st)) (distance (A_prime st) (origin st))
   \<and> (\<forall>dA dA'. distance (A st) (origin st) = Fin dA \<longrightarrow> distance (A_prime st) (origin st) = Fin dA' \<longrightarrow>
        distance (snd (line (line_updater st))) (origin st) = Fin (max dA dA'))"
  by (auto simp: line_updater_def py_max_key_def flt_irrefl dest: flt_asym)

theorem connector_line_witness:
  "line (line_updater (A_prime_updater initial_scene)) = (P 0 0 0, P 4 0 0)
   \<and> distance (A (A_prime_updater initial_scene)) (P 0 0 0) = Fin 1
   \<and> distance (A_prime (A_prime_updater initial_scene)) (P 0 0 0) = Fin 4
   \<and> distance (snd (line (line_updater (A_prime_updater initial_scene)))) (P 0 0 0) = Fin (max 1 4)"
proof -
  have inv: "circ_inverse_of (P 1 0 0) (P 0 0 0) (Fin 2) = P 4 0 0"
    by (simp add: circ_inverse_of_finite Let_def sqdist_def scale_cap_def)
  have d1: "distance (A (A_prime_updater initial_scene)) (origin (A_prime_updater initial_scene)) = Fin 1"
    by (simp add: A_prime_updater_def initial_scene_def distance_P sqdist_def)
  have d4: "distance (A_prime (A_prime_updater initial_scene)) (origin (A_prime_updater initial_scene)) = Fin 4"
    by (simp add: A_prime_updater_def initial_scene_def inv distance_P sqdist_def)
  have o: "origin (A_prime_updater initial_scene) = P 0 0 0"
    by (simp add: A_prime_updater_def initial_scene_def)
  from connector_line [of "A_prime_updater initial_scene"] d1 d4
  have "distance (snd (line (line_updater (A_prime_updater initial_scene)))) (P 0 0 0) = Fin (max 1 4)"
    unfolding o by blast
  moreover have "line (line_updater (A_prime_updater initial_scene)) = (P 0 0 0, P 4 0 0)"
    by (simp add: line_updater_def py_max_key_def A_prime_updater_def initial_scene_def inv distance_P sqdist_def)
  ultimately show ?thesis
    using d1 d4 unfolding o by simp
qed

section \<open>Tracing a circle\<close>

lemma shifted_circle_P:
  "shifted_circle r (smul (Fin c0) RIGHT) (smul (Fin c1) UP) = Circle r (P c0 c1 0)"
  by (simp add: shifted_circle_def RIGHT_def UP_def ORIGIN_def)

lemma frame_attached:
  assumes "arc_updater st = Some (center, radius)"
  shows "frame a st = inverted_arc_updater center radius (line_updater (A_prime_updater (st\<lparr>A := a\<rparr>)))"
  using assms by (simp add: frame_def Let_def line_updater_def A_prime_updater_def)

lemma frame_arc:
  assumes "arc_updater st = Some (center, radius)"
  shows "inverted_arc (frame a st) =
     Some (Arc radius center (circle_angle (A_prime (frame a st)) center)
       (fsub (Fin pi) (circle_angle (A_prime (frame a st)) center)))"
  unfolding frame_attached [OF assms]
  by (simp add: inverted_arc_updater_def line_updater_def A_prime_updater_def)

lemma frame_fields:
  "origin (frame a st) = origin st"
  "RADIUS (frame a st) = RADIUS st"
  "circle (frame a st) = circle st"
  "arc_updater (frame a st) = arc_updater st"
  "A (frame a st) = a"
  "A_prime (frame a st) = circ_inverse_of a (origin st) (RADIUS st)"
  by (simp_all add: frame_def Let_def inverted_arc_updater_def line_updater_def A_prime_updater_def
      split: option.splits)


lemma play_frames:
  assumes "s \<in> set (play path st)" and "arc_updater st = Some (center, radius)"
  shows "inverted_arc s = Some (Arc radius center (circle_angle (A_prime s) center)
             (fsub (Fin pi) (circle_angle (A_prime s) center)))
    \<and> A_prime s = circ_inverse_of (A s) (origin st) (RADIUS st)
    \<and> origin s = origin st \<and> RADIUS s = RADIUS st \<and> circle s = circle st"
  using assms
proof (induction path arbitrary: st)
  case Nil
  then show ?case by simp
next
  case (Cons a path)
  from Cons.prems(1) consider "s = frame a st" | "s \<in> set (play path (frame a st))"
    by auto
  then show ?case
  proof cases
    case 1
    then show ?thesis
      by (simp only: frame_arc [OF Cons.prems(2)] frame_fields)
  next
    case 2
    have "arc_updater (frame a st) = Some (center, radius)"
      by (simp only: frame_fields Cons.prems(2))
    from Cons.IH [OF 2 this] show ?thesis
      by (simp only: frame_fields)
  qed
qed


lemma inverted_circle_points_circle:
  "inverted_circle_points (st\<lparr>circle := x\<rparr>) circ = inverted_circle_points st circ"
  by (simp add: inverted_circle_points_def)

lemma trace_circle_frames:
  "fst (trace_circle r c path st) =
    (let circ = shifted_circle r (smul (fst c) RIGHT) (smul (snd c) UP);
         pts = inverted_circle_points st circ;
         fitted = define_circle (pts ! 0) (pts ! 1) (pts ! 2)
     in play path
          (st\<lparr>circle := Some circ,
              inverted_arc := Some (Arc (snd fitted) (fst fitted) (Fin pi) (Fin 0)),
              arc_updater := Some (fst fitted, snd fitted)\<rparr>))"
  by (simp add: trace_circle_def Let_def inverted_circle_points_circle)






text \<open>
  The tracer scenario: the scene as first built (inversion circle of radius \<open>2\<close> about
  the origin) and the source circle of radius \<open>1/2\<close> about \<open>(-2, 0)\<close>.
\<close>

lemma scenario_points:
  "inverted_circle_points initial_scene (Circle (Fin (1 / 2)) (P (- 2) 0 0)) =
     [P (- (8 / 3)) 0 0, P (- (32 / 17)) (8 / 17) 0, P (- (32 / 17)) (- (8 / 17)) 0]"
  by (simp add: inverted_circle_points_def initial_scene_def RIGHT_def UP_def DOWN_def
      circ_inverse_of_finite Let_def sqdist_def scale_cap_def power2_eq_square)

lemma scenario_fit:
  "define_circle (P (- (8 / 3)) 0 0) (P (- (32 / 17)) (8 / 17) 0) (P (- (32 / 17)) (- (8 / 17)) 0) =
     (P (- (32 / 15)) 0 0, Fin (8 / 15))"
proof -
  have a: "side2 (- (32 / 17)) (8 / 17) (- (32 / 17)) (- (8 / 17)) = (16 / 17)\<^sup>2"
    and b: "side2 (- (32 / 17)) (- (8 / 17)) (- (8 / 3)) 0 = 2176 / 2601"
    and c: "side2 (- (8 / 3)) 0 (- (32 / 17)) (8 / 17) = 2176 / 2601"
    by (simp_all add: side2_def power2_eq_square)
  have s: "heron ((16 / 17)\<^sup>2) (2176 / 2601) (2176 / 2601) = (1280 / 867)\<^sup>2"
    by (simp add: heron_def power2_eq_square)
  have rad: "sqrt ((16 / 17)\<^sup>2) * sqrt (2176 / 2601) * sqrt (2176 / 2601) / sqrt ((1280 / 867)\<^sup>2)
      = (8 / 15 :: real)"
    by (simp add: mult.assoc)
  have "cross (- (8 / 3)) 0 (- (32 / 17)) (8 / 17) (- (32 / 17)) (- (8 / 17)) \<noteq> 0"
    by (simp add: cross_def)
  from define_circle_finite [OF this, of 0 0 0] show ?thesis
    unfolding a b c s rad by (simp add: weighted_def power2_eq_square)
qed

lemma scenario_frames:
  "fst (trace_circle (Fin (1 / 2)) (Fin (- 2), Fin 0) [a] initial_scene) =
     [frame a
        (initial_scene\<lparr>circle := Some (Circle (Fin (1 / 2)) (P (- 2) 0 0)),
           inverted_arc := Some (Arc (Fin (8 / 15)) (P (- (32 / 15)) 0 0) (Fin pi) (Fin 0)),
           arc_updater := Some (P (- (32 / 15)) 0 0, Fin (8 / 15))\<rparr>)]"
  unfolding trace_circle_frames Let_def fst_conv snd_conv shifted_circle_P scenario_points
  by (simp add: scenario_fit)

text \<open>
  C4, as the code has it. In every frame played while the updater is attached,
  \<^verbatim>\<open>A_prime\<close> is the inverse of \<^verbatim>\<open>A\<close>, and the arc lies on the fitted circle, starts at
  the polar angle \<open>\<theta>\<close> of \<^verbatim>\<open>A_prime\<close> about the fitted centre, and sweeps through
  \<open>\<pi> - \<theta>\<close>: it ends at the angle \<open>\<pi>\<close>.
\<close>

theorem arc_sweep:
  "let circ = shifted_circle r (smul (fst c) RIGHT) (smul (snd c) UP);
       pts = inverted_circle_points st circ;
       fitted = define_circle (pts ! 0) (pts ! 1) (pts ! 2)
   in \<forall>s \<in> set (fst (trace_circle r c path st)).
        A_prime s = circ_inverse_of (A s) (origin st) (RADIUS st)
      \<and> inverted_arc s = Some (Arc (snd fitted) (fst fitted)
          (circle_angle (A_prime s) (fst fitted))
          (fsub (Fin pi) (circle_angle (A_prime s) (fst fitted))))"
  unfolding trace_circle_frames Let_def
  by (intro ballI) (auto dest!: play_frames)

theorem arc_sweep_witness:
  "inverted_arc (hd (fst (trace_circle (Fin (1 / 2)) (Fin (- 2), Fin 0) [P (- (3 / 2)) 0 0] initial_scene)))
     = Some (Arc (Fin (8 / 15)) (P (- (32 / 15)) 0 0) (Fin pi) (fsub (Fin pi) (Fin pi)))"
proof -
  let ?frames = "fst (trace_circle (Fin (1 / 2)) (Fin (- 2), Fin 0) [P (- (3 / 2)) 0 0] initial_scene)"
  have mem: "hd ?frames \<in> set ?frames"
    by (simp add: scenario_frames)
  have img: "A_prime (hd ?frames) = P (- (8 / 3)) 0 0"
    unfolding scenario_frames list.sel frame_fields
    by (simp add: initial_scene_def circ_inverse_of_finite Let_def sqdist_def scale_cap_def
        power2_eq_square)
  have ang: "circle_angle (P (- (8 / 3)) 0 0) (P (- (32 / 15)) 0 0) = Fin pi"
    by (simp add: circle_angle_def fsub_def atan2_def)
  from arc_sweep [of "Fin (1 / 2)" "(Fin (- 2), Fin 0)" initial_scene "[P (- (3 / 2)) 0 0]"] mem
  show ?thesis
    unfolding Let_def fst_conv snd_conv shifted_circle_P scenario_points
    by (simp add: scenario_fit img ang)
qed

text \<open>
  C4 as stated fails: the sweep is not \<open>\<pi>\<close> in every frame. In the tracer scenario, in a
  frame with \<^verbatim>\<open>A\<close> at \<open>(-30/17, 15/34, 0)\<close> on the source circle, \<^verbatim>\<open>A_prime\<close> is right above
  the fitted centre, the arc starts at \<open>\<pi>/2\<close> and its sweep is \<open>\<pi>/2\<close>.
\<close>

theorem arc_sweep_counterexample:
  "angle (the (inverted_arc (hd (fst (trace_circle (Fin (1 / 2)) (Fin (- 2), Fin 0)
      [P (- (30 / 17)) (15 / 34) 0] initial_scene))))) = Fin (pi / 2)
   \<and> angle (the (inverted_arc (hd (fst (trace_circle (Fin (1 / 2)) (Fin (- 2), Fin 0)
      [P (- (30 / 17)) (15 / 34) 0] initial_scene))))) \<noteq> Fin pi"
proof -
  have img: "circ_inverse_of (P (- (30 / 17)) (15 / 34) 0) (P 0 0 0) (Fin 2) = P (- (32 / 15)) (8 / 15) 0"
    by (simp add: circ_inverse_of_finite Let_def sqdist_def scale_cap_def power2_eq_square)
  have ang: "circle_angle (P (- (32 / 15)) (8 / 15) 0) (P (- (32 / 15)) 0 0) = Fin (pi / 2)"
    by (simp add: circle_angle_def fsub_def atan2_def)
  have att: "arc_updater (initial_scene\<lparr>circle := Some (Circle (Fin (1 / 2)) (P (- 2) 0 0)),
           inverted_arc := Some (Arc (Fin (8 / 15)) (P (- (32 / 15)) 0 0) (Fin pi) (Fin 0)),
           arc_updater := Some (P (- (32 / 15)) 0 0, Fin (8 / 15))\<rparr>)
      = Some (P (- (32 / 15)) 0 0, Fin (8 / 15))"
    by simp
  have "inverted_arc (hd (fst (trace_circle (Fin (1 / 2)) (Fin (- 2), Fin 0)
      [P (- (30 / 17)) (15 / 34) 0] initial_scene))) =
      Some (Arc (Fin (8 / 15)) (P (- (32 / 15)) 0 0) (Fin (pi / 2)) (Fin (pi / 2)))"
    unfolding scenario_frames list.sel frame_arc [OF att] frame_fields
    by (simp add: initial_scene_def img ang fsub_def)
  then show ?thesis
    by simp
qed



end
